theory Spec2Isabelle
  imports Main
begin

section \<open>The sliding-window rate limiter (src/src/rate-limiter.ts)\<close>

text \<open>
  Times are the integer millisecond readings of \<^verbatim>\<open>Date.now()\<close>; every operation that
  reads the clock takes the reading as its argument \<open>now\<close>. Counts and durations are
  JavaScript numbers holding integers, modelled as \<open>int\<close>.
\<close>

text \<open>
  \<^verbatim>\<open>Required<RateLimiterConfig>\<close>, as the constructor stores it: \<open>blockDurationMs\<close> is
  already defaulted.
\<close>

record RateLimiterConfig =
  maxRequests :: int
  windowMs :: int
  blockDurationMs :: int

text \<open>\<^verbatim>\<open>interface ClientState\<close>: \<open>blockedUntil = None\<close> is \<^verbatim>\<open>undefined\<close>.\<close>

record ClientState =
  requests :: "int list"
  blockedUntil :: "int option"

text \<open>
  \<^verbatim>\<open>interface RateLimitResult\<close>: the optional field \<open>blocked\<close> is absent (\<open>None\<close>) in the
  result of an admitted request.
\<close>

record RateLimitResult =
  allowed :: bool
  remaining :: int
  resetMs :: int
  blocked :: "bool option"

text \<open>
  \<^verbatim>\<open>class RateLimiter\<close>: the configuration and the \<^verbatim>\<open>Map<string, ClientState>\<close>. The
  cleanup timer handle is not part of the model.
\<close>

record RateLimiter =
  config :: RateLimiterConfig
  clients :: "string \<rightharpoonup> ClientState"

text \<open>The constructor: \<^verbatim>\<open>blockDurationMs: config.blockDurationMs ?? 0\<close>, no clients.\<close>

definition new_RateLimiter :: "int \<Rightarrow> int \<Rightarrow> int option \<Rightarrow> RateLimiter" where
  "new_RateLimiter maxReq window blockDuration =
     \<lparr>config = \<lparr>maxRequests = maxReq, windowMs = window,
                 blockDurationMs = (case blockDuration of None \<Rightarrow> 0 | Some d \<Rightarrow> d)\<rparr>,
      clients = Map.empty\<rparr>"

text \<open>
  JavaScript truthiness of a \<^verbatim>\<open>number | undefined\<close>, as the tests
  \<^verbatim>\<open>state.blockedUntil && ...\<close> and \<^verbatim>\<open>!state.blockedUntil\<close> read it: \<^verbatim>\<open>undefined\<close> and
  \<^verbatim>\<open>0\<close> are falsy.
\<close>

definition truthy :: "int option \<Rightarrow> bool" where
  "truthy v = (case v of None \<Rightarrow> False | Some n \<Rightarrow> n \<noteq> 0)"

text \<open>
  Lines 72--99 of \<^verbatim>\<open>check\<close>, on the client's state object: the trim, the quota
  arithmetic and the decision. The second component is the state object after the
  mutations.
\<close>

definition check_window ::
  "RateLimiterConfig \<Rightarrow> int \<Rightarrow> ClientState \<Rightarrow> RateLimitResult \<times> ClientState" where
  "check_window cfg now state0 =
     (let windowStart = now - windowMs cfg;
          state = state0\<lparr>requests := filter (\<lambda>ts. ts > windowStart) (requests state0)\<rparr>;
          remaining_v = maxRequests cfg - int (length (requests state));
          oldestRequest = (case requests state of [] \<Rightarrow> now | ts # _ \<Rightarrow> ts);
          resetMs_v = max 0 (oldestRequest + windowMs cfg - now)
      in if int (length (requests state)) \<ge> maxRequests cfg then
           (\<lparr>allowed = False, remaining = 0,
             resetMs = (if blockDurationMs cfg > 0 then blockDurationMs cfg else resetMs_v),
             blocked = Some (blockDurationMs cfg > 0)\<rparr>,
            if blockDurationMs cfg > 0
            then state\<lparr>blockedUntil := Some (now + blockDurationMs cfg)\<rparr>
            else state)
         else
           (\<lparr>allowed = True, remaining = remaining_v - 1, resetMs = resetMs_v,
             blocked = None\<rparr>,
            state\<lparr>requests := requests state @ [now]\<rparr>))"

text \<open>
  Lines 58--70 of \<^verbatim>\<open>check\<close>: an active block returns at once and leaves the state
  object alone; an expired block is cleared together with the timestamps; then the
  window part runs.
\<close>

definition check_state ::
  "RateLimiterConfig \<Rightarrow> int \<Rightarrow> ClientState \<Rightarrow> RateLimitResult \<times> ClientState" where
  "check_state cfg now state =
     (case (if truthy (blockedUntil state) then blockedUntil state else None) of
        Some until \<Rightarrow>
          if now < until then
            (\<lparr>allowed = False, remaining = 0, resetMs = until - now, blocked = Some True\<rparr>,
             state)
          else
            check_window cfg now (state\<lparr>blockedUntil := None, requests := []\<rparr>)
      | None \<Rightarrow> check_window cfg now state)"

text \<open>
  \<^verbatim>\<open>check(clientId)\<close>: the state object is looked up, or created and stored, and the
  body above mutates it in place inside the map.
\<close>

definition check :: "RateLimiter \<Rightarrow> int \<Rightarrow> string \<Rightarrow> RateLimitResult \<times> RateLimiter" where
  "check this now clientId =
     (let state = (case clients this clientId of
                     None \<Rightarrow> \<lparr>requests = [], blockedUntil = None\<rparr>
                   | Some s \<Rightarrow> s);
          (result, state') = check_state (config this) now state
      in (result, this\<lparr>clients := (clients this)(clientId \<mapsto> state')\<rparr>))"

text \<open>\<^verbatim>\<open>consume(clientId)\<close>: pushes the clock reading when the client is tracked.\<close>

definition consume :: "RateLimiter \<Rightarrow> int \<Rightarrow> string \<Rightarrow> RateLimiter" where
  "consume this now clientId =
     (case clients this clientId of
        Some state \<Rightarrow>
          this\<lparr>clients := (clients this)(clientId \<mapsto> state\<lparr>requests := requests state @ [now]\<rparr>)\<rparr>
      | None \<Rightarrow> this)"

text \<open>\<^verbatim>\<open>reset(clientId)\<close> and \<^verbatim>\<open>clear()\<close>.\<close>

definition reset :: "RateLimiter \<Rightarrow> string \<Rightarrow> RateLimiter" where
  "reset this clientId = this\<lparr>clients := (clients this)(clientId := None)\<rparr>"

definition clear :: "RateLimiter \<Rightarrow> RateLimiter" where
  "clear this = this\<lparr>clients := Map.empty\<rparr>"

text \<open>
  The body of the loop of \<^verbatim>\<open>cleanup()\<close> for one entry: \<open>None\<close> when the entry is
  deleted, else the state object after the trim and the clearing of an expired block.
\<close>

definition cleanup_entry :: "RateLimiterConfig \<Rightarrow> int \<Rightarrow> ClientState \<Rightarrow> ClientState option" where
  "cleanup_entry cfg now state0 =
     (let windowStart = now - windowMs cfg;
          state1 = state0\<lparr>requests := filter (\<lambda>ts. ts > windowStart) (requests state0)\<rparr>;
          state2 = (case (if truthy (blockedUntil state1) then blockedUntil state1 else None) of
                      Some until \<Rightarrow> if now \<ge> until then state1\<lparr>blockedUntil := None\<rparr> else state1
                    | None \<Rightarrow> state1)
      in if length (requests state2) = 0 \<and> \<not> truthy (blockedUntil state2) then None
         else Some state2)"

text \<open>
  \<^verbatim>\<open>cleanup()\<close>: the loop visits every entry of the map once, and each iteration reads
  and writes only the entry it visits, so the map after the loop is the entry-wise
  image.
\<close>

definition cleanup :: "RateLimiter \<Rightarrow> int \<Rightarrow> RateLimiter" where
  "cleanup this now =
     this\<lparr>clients := (\<lambda>clientId. case clients this clientId of
                                      None \<Rightarrow> None
                                    | Some state \<Rightarrow> cleanup_entry (config this) now state)\<rparr>"

text \<open>
  A sequence of \<^verbatim>\<open>check()\<close> calls on one limiter, each with its clock reading and its
  client; the log holds the reading, the client and the result of every call.
\<close>

fun run_checks ::
  "RateLimiter \<Rightarrow> (int \<times> string) list \<Rightarrow> (int \<times> string \<times> RateLimitResult) list" where
  "run_checks this [] = []"
| "run_checks this ((now, clientId) # calls) =
     (now, clientId, fst (check this now clientId))
       # run_checks (snd (check this now clientId)) calls"

text \<open>
  The number of logged calls of client \<open>c\<close> that were admitted at a reading inside the
  trailing window \<open>(T - w, T]\<close>.
\<close>

definition admitted_in_window ::
  "int \<Rightarrow> string \<Rightarrow> int \<Rightarrow> (int \<times> string \<times> RateLimitResult) list \<Rightarrow> nat" where
  "admitted_in_window w c T log =
     length (filter (\<lambda>(t, c', r). c' = c \<and> allowed r \<and> T - w < t \<and> t \<le> T) log)"

text \<open>
  Vocabulary of the statements below. \<open>state_of\<close> is the state object \<^verbatim>\<open>check\<close> works on:
  the tracked one, or the fresh one it creates. \<open>in_window\<close> counts the stored
  timestamps inside the window \<open>(T - windowMs, T]\<close> of a clock reading \<open>T\<close> that no stored
  timestamp exceeds.
\<close>

definition state_of :: "RateLimiter \<Rightarrow> string \<Rightarrow> ClientState" where
  "state_of this c =
     (case clients this c of None \<Rightarrow> \<lparr>requests = [], blockedUntil = None\<rparr> | Some s \<Rightarrow> s)"


text \<open>The limiter after a sequence of \<^verbatim>\<open>check()\<close> calls.\<close>

fun after_checks :: "RateLimiter \<Rightarrow> (int \<times> string) list \<Rightarrow> RateLimiter" where
  "after_checks this [] = this"
| "after_checks this ((now, clientId) # calls) =
     after_checks (snd (check this now clientId)) calls"


definition in_window :: "RateLimiterConfig \<Rightarrow> int \<Rightarrow> ClientState \<Rightarrow> nat" where
  "in_window cfg T s = length (filter (\<lambda>ts. T - windowMs cfg < ts) (requests s))"

text \<open>
  What a history of \<^verbatim>\<open>check\<close> calls up to the reading \<open>now0\<close> leaves in a state object
  when the block lasts at least as long as the window: the window holds at most
  \<open>maxRequests\<close> timestamps, none lies in the future, and under a block every stored
  timestamp has left the window by the time the block expires.
\<close>

definition history_inv :: "RateLimiterConfig \<Rightarrow> int \<Rightarrow> ClientState \<Rightarrow> bool" where
  "history_inv cfg now0 s =
     (int (in_window cfg now0 s) \<le> maxRequests cfg
      \<and> list_all (\<lambda>ts. ts \<le> now0) (requests s)
      \<and> (case blockedUntil s of
            None \<Rightarrow> True
          | Some b \<Rightarrow> b = 0 \<or> list_all (\<lambda>ts. ts + windowMs cfg \<le> b) (requests s)))"

section \<open>The message gate (src/src/websocket-handler.ts)\<close>

text \<open>
  The value \<^verbatim>\<open>JSON.parse\<close> returns. An object is the list of its own properties (keys
  distinct). Numbers are kept as integers: the gate reads a number only where it
  expects a string, and rejects the message whatever the number is.
\<close>

datatype json =
    JNull
  | JBool bool
  | JNumber int
  | JString string
  | JArray "json list"
  | JObject "(string \<times> json) list"

text \<open>
  What the promise of \<^verbatim>\<open>handleMessage\<close> can reject with: a TypeError of the platform, or
  another value thrown while a thrown value is converted to text.
\<close>

datatype js_error = TypeError | Thrown string

text \<open>
  The value a handler throws (or its promise rejects with), as the \<^verbatim>\<open>catch\<close> block of
  \<^verbatim>\<open>handleMessage\<close> reads it. For an \<^verbatim>\<open>Error\<close> the block logs its \<^verbatim>\<open>message\<close> through a
  template literal of \<^verbatim>\<open>formatErrorForLogging\<close>; any other value goes through
  \<^verbatim>\<open>new Error(String(error))\<close>. The argument is what that conversion to text gives: the
  text, or \<open>Inl e\<close> when the conversion throws \<open>e\<close> (a TypeError for
  \<^verbatim>\<open>Object.create(null)\<close> or for a Symbol as message, anything for a throwing
  \<^verbatim>\<open>toString\<close>).
\<close>

datatype thrown_value = ErrorObject "js_error + string" | OtherValue "js_error + string"

fun thrown_text :: "thrown_value \<Rightarrow> js_error + string" where
  "thrown_text (ErrorObject message) = message"
| "thrown_text (OtherValue text) = text"

text \<open>The codes of \<^verbatim>\<open>ErrorCodes\<close> (src/src/errors.ts).\<close>

datatype ErrorCode =
    RATE_LIMIT_EXCEEDED
  | INVALID_MESSAGE
  | INVALID_JSON
  | MISSING_TYPE
  | UNKNOWN_MESSAGE_TYPE
  | INVALID_PAYLOAD
  | UNAUTHORIZED
  | FORBIDDEN
  | HANDLER_ERROR
  | INTERNAL_ERROR
  | SERVICE_UNAVAILABLE

text \<open>
  An outbound payload: an error response (src/src/errors.ts), kept as its code and its
  \<^verbatim>\<open>retryAfterMs\<close> field when it has one, or any other text a handler sends.
\<close>

datatype payload = ErrorString ErrorCode "int option" | Text string

text \<open>
  \<^verbatim>\<open>createErrorString(code, options)\<close>: the response carries \<^verbatim>\<open>retryAfterMs\<close> only when
  the option is truthy (\<^verbatim>\<open>...(options.retryAfterMs && { retryAfterMs })\<close>). The title, the
  message, the suggestion, the details and the time stamp of the response are left out.
\<close>

definition createErrorString :: "ErrorCode \<Rightarrow> int option \<Rightarrow> payload" where
  "createErrorString code retryAfterMs =
     ErrorString code (if truthy retryAfterMs then retryAfterMs else None)"

text \<open>
  \<^verbatim>\<open>interface WebSocketClient\<close>, as the mock client of the tests implements it: \<open>send\<close>
  records the payload, \<open>close\<close> records the code and the reason.
\<close>

record WebSocketClient =
  id :: string
  messages :: "payload list"
  closed :: "(int \<times> string) option"

definition send :: "WebSocketClient \<Rightarrow> payload \<Rightarrow> WebSocketClient" where
  "send client data = client\<lparr>messages := messages client @ [data]\<rparr>"

definition close :: "WebSocketClient \<Rightarrow> int \<Rightarrow> string \<Rightarrow> WebSocketClient" where
  "close client code reason = client\<lparr>closed := Some (code, reason)\<rparr>"

text \<open>
  \<^verbatim>\<open>type MessageHandler\<close>: a handler gets the client and the parsed message. It is a
  closure and can reach the server's limiter (\<^verbatim>\<open>getRateLimiter()\<close>, \<^verbatim>\<open>resetClient\<close>), so it
  also gets the limiter as \<^verbatim>\<open>check\<close> left it. It returns \<open>Some v\<close> when it throws \<open>v\<close> or
  its promise rejects with \<open>v\<close>, the client after whatever it sent, and the limiter
  after whatever it did to it. Registrations made from inside a handler are not
  modelled.
\<close>

type_synonym MessageHandler =
  "WebSocketClient \<Rightarrow> json \<Rightarrow> RateLimiter \<Rightarrow> thrown_value option \<times> WebSocketClient \<times> RateLimiter"

text \<open>
  \<^verbatim>\<open>class RateLimitedWebSocketServer\<close>: the limiter, the handler table and the four
  options of \<open>config\<close>, defaulted by the constructor.
\<close>

record RateLimitedWebSocketServer =
  rateLimiter :: RateLimiter
  handlers :: "string \<rightharpoonup> MessageHandler"
  onRateLimitExceeded :: "WebSocketClient \<Rightarrow> RateLimitResult \<Rightarrow> WebSocketClient"
  closeOnRateLimit :: bool
  getClientId :: "WebSocketClient \<Rightarrow> string"
  includeSuggestions :: bool

text \<open>
  The constructor with no options: the callback does nothing, the connection stays
  open on a denial, the client id is \<^verbatim>\<open>client.id\<close>.
\<close>

definition new_RateLimitedWebSocketServer ::
  "int \<Rightarrow> int \<Rightarrow> int option \<Rightarrow> RateLimitedWebSocketServer" where
  "new_RateLimitedWebSocketServer maxReq window blockDuration =
     \<lparr>rateLimiter = new_RateLimiter maxReq window blockDuration,
      handlers = Map.empty,
      onRateLimitExceeded = (\<lambda>client result. client),
      closeOnRateLimit = False,
      getClientId = (\<lambda>client. id client),
      includeSuggestions = True\<rparr>"

text \<open>\<^verbatim>\<open>on(messageType, handler)\<close> and \<^verbatim>\<open>off(messageType)\<close>.\<close>

definition on ::
  "RateLimitedWebSocketServer \<Rightarrow> string \<Rightarrow> MessageHandler \<Rightarrow> RateLimitedWebSocketServer" where
  "on this messageType handler = this\<lparr>handlers := (handlers this)(messageType \<mapsto> handler)\<rparr>"

definition off :: "RateLimitedWebSocketServer \<Rightarrow> string \<Rightarrow> RateLimitedWebSocketServer" where
  "off this messageType = this\<lparr>handlers := (handlers this)(messageType := None)\<rparr>"

text \<open>
  The property read \<^verbatim>\<open>message.type\<close>: on \<^verbatim>\<open>null\<close> it throws a TypeError; on an object it
  is the property's value, or \<^verbatim>\<open>undefined\<close> (\<open>None\<close>); a boolean, a number, a string and
  an array have no property of that name.
\<close>

fun message_type :: "json \<Rightarrow> js_error + json option" where
  "message_type JNull = Inl TypeError"
| "message_type (JObject properties) = Inr (map_of properties ''type'')"
| "message_type _ = Inr None"

text \<open>
  The test \<^verbatim>\<open>!message.type || typeof message.type !== 'string'\<close>: \<open>js_truthy\<close> is the
  truthiness of the value read, and \<open>typeof_string\<close> returns the string when the value
  is one. The message passes when the value is truthy and a string.
\<close>

fun js_truthy :: "json option \<Rightarrow> bool" where
  "js_truthy None = False"
| "js_truthy (Some JNull) = False"
| "js_truthy (Some (JBool b)) = b"
| "js_truthy (Some (JNumber n)) = (n \<noteq> 0)"
| "js_truthy (Some (JString s)) = (s \<noteq> [])"
| "js_truthy (Some (JArray _)) = True"
| "js_truthy (Some (JObject _)) = True"

fun typeof_string :: "json option \<Rightarrow> string option" where
  "typeof_string (Some (JString s)) = Some s"
| "typeof_string _ = None"

text \<open>\<^verbatim>\<open>sendRateLimitError\<close>: one payload with the code and \<^verbatim>\<open>retryAfterMs\<close>.\<close>

definition sendRateLimitError ::
  "RateLimitedWebSocketServer \<Rightarrow> WebSocketClient \<Rightarrow> RateLimitResult \<Rightarrow> WebSocketClient" where
  "sendRateLimitError this client result =
     send client (createErrorString RATE_LIMIT_EXCEEDED (Some (resetMs result)))"

text \<open>
  \<^verbatim>\<open>handleMessage(client, rawMessage)\<close>. The platform's \<^verbatim>\<open>JSON.parse\<close> is the parameter
  \<open>JSON_parse\<close> (\<open>None\<close> when it throws a SyntaxError) and \<open>now\<close> is the clock reading of
  the \<^verbatim>\<open>check\<close> call. The result is the rejection of the returned promise (\<open>None\<close> when
  it resolves), the server and the client after the call. In the \<^verbatim>\<open>catch\<close> block the text
  written to the console is left out, but not the conversion of the thrown value that
  builds it: when the conversion throws, the block is left before \<^verbatim>\<open>client.send\<close> and
  the promise rejects.
\<close>

definition handleMessage ::
  "(string \<Rightarrow> json option) \<Rightarrow> RateLimitedWebSocketServer \<Rightarrow> int \<Rightarrow> WebSocketClient \<Rightarrow> string
     \<Rightarrow> js_error option \<times> RateLimitedWebSocketServer \<times> WebSocketClient" where
  "handleMessage JSON_parse this now client rawMessage =
     (let clientId = getClientId this client;
          result = fst (check (rateLimiter this) now clientId);
          this = this\<lparr>rateLimiter := snd (check (rateLimiter this) now clientId)\<rparr>
      in if \<not> allowed result then
           (let client = sendRateLimitError this client result;
                client = onRateLimitExceeded this client result;
                client = (if closeOnRateLimit this
                          then close client 4029 ''Rate limit exceeded'' else client)
            in (None, this, client))
         else
           (case JSON_parse rawMessage of
              None \<Rightarrow> (None, this, send client (createErrorString INVALID_JSON None))
            | Some message \<Rightarrow>
                (case message_type message of
                   Inl error \<Rightarrow> (Some error, this, client)
                 | Inr type \<Rightarrow>
                     (case (if js_truthy type then typeof_string type else None) of
                        None \<Rightarrow> (None, this, send client (createErrorString MISSING_TYPE None))
                      | Some type_name \<Rightarrow>
                          (case handlers this type_name of
                             None \<Rightarrow>
                               (None, this, send client (createErrorString UNKNOWN_MESSAGE_TYPE None))
                           | Some handler \<Rightarrow>
                               (case handler client message (rateLimiter this) of
                                  (None, client, limiter) \<Rightarrow>
                                    (None, this\<lparr>rateLimiter := limiter\<rparr>, client)
                                | (Some error, client, limiter) \<Rightarrow>
                                    (case thrown_text error of
                                       Inl conversion_error \<Rightarrow>
                                         (Some conversion_error,
                                          this\<lparr>rateLimiter := limiter\<rparr>, client)
                                     | Inr error_text \<Rightarrow>
                                         (None, this\<lparr>rateLimiter := limiter\<rparr>,
                                          send client
                                            (createErrorString HANDLER_ERROR None)))))))))"

section \<open>States and payloads of the instances\<close>

text \<open>
  The concrete limiters, server and client at which the statements below are
  instantiated. The server and the client are those of the tests: a server with the
  policy \<open>maxRequests = 5\<close>, \<open>windowMs = 1000\<close> and a handler for \<open>ping\<close> that answers
  \<open>pong\<close>, and the mock client \<open>c1\<close>; \<open>ping_server_after_one\<close> is that server after a
  first message of \<open>c1\<close> at 7, and \<open>overfilled_limiter\<close> a limiter with the policy
  \<open>maxRequests = 2\<close>, \<open>windowMs = 100\<close> after \<^verbatim>\<open>check\<close> at 0 and \<^verbatim>\<open>consume\<close> at 1 and 2.
\<close>

abbreviation mock_client_c1 :: WebSocketClient where
  "mock_client_c1 \<equiv> \<lparr>id = ''c1'', messages = [], closed = None\<rparr>"

abbreviation ping_server :: RateLimitedWebSocketServer where
  "ping_server \<equiv>
     on (new_RateLimitedWebSocketServer 5 1000 None) ''ping''
        (\<lambda>client message limiter. (None, send client (Text ''pong''), limiter))"

abbreviation blocked_limiter :: RateLimiter where
  "blocked_limiter \<equiv>
     \<lparr>config = \<lparr>maxRequests = 2, windowMs = 1000, blockDurationMs = 5000\<rparr>,
      clients = [''c'' \<mapsto> \<lparr>requests = [3, 4], blockedUntil = Some 5004\<rparr>]\<rparr>"

abbreviation full_limiter :: RateLimiter where
  "full_limiter \<equiv>
     \<lparr>config = \<lparr>maxRequests = 2, windowMs = 100, blockDurationMs = 0\<rparr>,
      clients = [''a'' \<mapsto> \<lparr>requests = [10, 30], blockedUntil = None\<rparr>]\<rparr>"



abbreviation stale_limiter :: RateLimiter where
  "stale_limiter \<equiv>
     \<lparr>config = \<lparr>maxRequests = 5, windowMs = 50, blockDurationMs = 30\<rparr>,
      clients = [''a'' \<mapsto> \<lparr>requests = [10, 80], blockedUntil = None\<rparr>,
                 ''idle'' \<mapsto> \<lparr>requests = [10, 50], blockedUntil = Some 90\<rparr>]\<rparr>"

text \<open>
  \<^verbatim>\<open>JSON.parse\<close> on the payloads that the tests of the repository send to
  \<^verbatim>\<open>handleMessage\<close> (tests/rate-limiter.test.ts, "message handling"), and on the text
  \<^verbatim>\<open>null\<close>. It stands for \<^verbatim>\<open>JSON.parse\<close> at these texts only: \<^verbatim>\<open>not json\<close> is the one other
  text it is read at.
\<close>

definition test_payloads :: "string \<Rightarrow> json option" where
  \<open>test_payloads raw =
     (if raw = ''{"type":"ping","payload":"test"}''
        then Some (JObject [(''type'', JString ''ping''), (''payload'', JString ''test'')])
      else if raw = ''{"type":"unknown"}'' then Some (JObject [(''type'', JString ''unknown'')])
      else if raw = ''{"payload":"test"}'' then Some (JObject [(''payload'', JString ''test'')])
      else if raw = ''null'' then Some JNull
      else None)\<close>

section \<open>Facts about the limiter and the gate\<close>

lemma truthy_simps [simp]:
  "truthy None = False" "truthy (Some n) = (n \<noteq> 0)"
  by (simp_all add: truthy_def)

lemma check_config [simp]: "config (snd (check this now c)) = config this"
  by (simp add: check_def Let_def split: prod.splits)

lemma check_other [simp]: "c' \<noteq> c \<Longrightarrow> clients (snd (check this now c)) c' = clients this c'"
  by (simp add: check_def Let_def split: prod.splits)

lemma check_fst: "fst (check this now c) = fst (check_state (config this) now (state_of this c))"
  by (simp add: check_def state_of_def Let_def split: prod.splits)

lemma check_state_of_same:
  "state_of (snd (check this now c)) c = snd (check_state (config this) now (state_of this c))"
  by (simp add: check_def state_of_def Let_def split: prod.splits)

lemma check_state_of_other:
  "c' \<noteq> c \<Longrightarrow> state_of (snd (check this now c)) c' = state_of this c'"
  by (simp add: state_of_def)

lemma length_filter_mono:
  "(\<And>x. x \<in> set xs \<Longrightarrow> P x \<Longrightarrow> Q x) \<Longrightarrow> length (filter P xs) \<le> length (filter Q xs)"
  by (induction xs) auto

lemma in_window_mono: "T1 \<le> T2 \<Longrightarrow> in_window cfg T2 s \<le> in_window cfg T1 s"
  unfolding in_window_def by (rule length_filter_mono) simp

lemma history_inv_mono:
  assumes "history_inv cfg now0 s" "now0 \<le> t"
  shows "history_inv cfg t s"
proof -
  have "int (in_window cfg t s) \<le> int (in_window cfg now0 s)"
    using in_window_mono [OF assms(2)] by simp
  moreover have "list_all (\<lambda>ts. ts \<le> t) (requests s)"
    using assms by (auto simp: history_inv_def list_all_iff)
  ultimately show ?thesis using assms(1) by (simp add: history_inv_def)
qed

lemma filter_filter_window:
  "t \<le> T \<Longrightarrow> filter (\<lambda>ts. T - w < ts) (filter (\<lambda>ts. t - w < ts) xs) = filter (\<lambda>ts. (T::int) - w < ts) xs"
  by (induction xs) auto

lemma check_window_inv:
  assumes "history_inv cfg now0 s" "now0 \<le> t" "\<not> truthy (blockedUntil s)"
    and "blockDurationMs cfg \<le> 0 \<or> windowMs cfg \<le> blockDurationMs cfg"
  shows "history_inv cfg t (snd (check_window cfg t s))"
proof -
  let ?xs = "filter (\<lambda>ts. t - windowMs cfg < ts) (requests s)"
  have len: "int (length ?xs) \<le> maxRequests cfg"
    using history_inv_mono [OF assms(1,2)] by (simp add: history_inv_def in_window_def)
  have le: "list_all (\<lambda>ts. ts \<le> t) (requests s)"
    using history_inv_mono [OF assms(1,2)] by (simp add: history_inv_def)
  have ff: "filter (\<lambda>ts. t - windowMs cfg < ts) ?xs = ?xs" by simp
  show ?thesis
    using len le assms(3,4)
    by (auto simp: check_window_def Let_def history_inv_def in_window_def list_all_iff truthy_def
        split: option.splits)
qed

lemma check_window_count:
  assumes "t \<le> T"
  shows "in_window cfg T (snd (check_window cfg t s))
       = in_window cfg T s + (if allowed (fst (check_window cfg t s)) \<and> T - windowMs cfg < t then 1 else 0)"
  using filter_filter_window [OF assms, of "windowMs cfg" "requests s"]
  by (simp add: check_window_def Let_def in_window_def)

lemma check_state_inv:
  assumes "history_inv cfg now0 s" "now0 \<le> t" "0 \<le> maxRequests cfg"
    and "blockDurationMs cfg \<le> 0 \<or> windowMs cfg \<le> blockDurationMs cfg"
  shows "history_inv cfg t (snd (check_state cfg t s))"
proof (cases "truthy (blockedUntil s)")
  case False
  then show ?thesis
    using check_window_inv [OF assms(1,2) False assms(4)]
    by (simp add: check_state_def)
next
  case True
  then obtain b where b: "blockedUntil s = Some b" "b \<noteq> 0"
    by (auto simp: truthy_def split: option.splits)
  show ?thesis
  proof (cases "t < b")
    case True
    then show ?thesis using b history_inv_mono [OF assms(1,2)] by (simp add: check_state_def)
  next
    case False
    let ?s0 = "s\<lparr>blockedUntil := None, requests := []\<rparr>"
    have "history_inv cfg t ?s0" using assms(3) by (simp add: history_inv_def in_window_def)
    then have "history_inv cfg t (snd (check_window cfg t ?s0))"
      using check_window_inv [of cfg t ?s0 t] assms(4) by simp
    then show ?thesis using b False by (simp add: check_state_def)
  qed
qed

lemma check_state_count:
  assumes "history_inv cfg now0 s" "now0 \<le> t" "t \<le> T"
  shows "in_window cfg T (snd (check_state cfg t s))
       = in_window cfg T s + (if allowed (fst (check_state cfg t s)) \<and> T - windowMs cfg < t then 1 else 0)"
proof (cases "truthy (blockedUntil s)")
  case False
  then show ?thesis using check_window_count [OF assms(3)] by (simp add: check_state_def)
next
  case True
  then obtain b where b: "blockedUntil s = Some b" "b \<noteq> 0"
    by (auto simp: truthy_def split: option.splits)
  show ?thesis
  proof (cases "t < b")
    case True
    then show ?thesis using b by (simp add: check_state_def)
  next
    case False
    let ?s0 = "s\<lparr>blockedUntil := None, requests := []\<rparr>"
    have "list_all (\<lambda>ts. ts + windowMs cfg \<le> b) (requests s)"
      using assms(1) b by (simp add: history_inv_def)
    then have "filter (\<lambda>ts. T - windowMs cfg < ts) (requests s) = []"
      using False assms(3) by (auto simp: list_all_iff filter_empty_conv)
    then have z: "in_window cfg T s = 0" "in_window cfg T ?s0 = 0" by (simp_all add: in_window_def)
    show ?thesis
      using check_window_count [OF assms(3), of cfg ?s0] z b False
      by (simp add: check_state_def)
  qed
qed


lemma run_checks_times [simp]: "map fst (run_checks this calls) = map fst calls"
  by (induction calls arbitrary: this) auto

lemma admitted_in_window_Cons:
  "admitted_in_window w c T ((t, c', r) # log) =
     (if c' = c \<and> allowed r \<and> T - w < t \<and> t \<le> T then 1 else 0) + admitted_in_window w c T log"
  by (simp add: admitted_in_window_def)

lemma admitted_in_window_later:
  assumes "\<forall>t\<in>set (map fst log). T < t"
  shows "admitted_in_window w c T log = 0"
  using assms by (induction log) (auto simp: admitted_in_window_def)

lemma history_inv_bound:
  assumes "history_inv cfg now0 s" "now0 \<le> T"
  shows "int (in_window cfg T s) \<le> maxRequests cfg"
  using history_inv_mono [OF assms] by (simp add: history_inv_def)

lemma run_checks_window:
  assumes "history_inv (config this) now0 (state_of this c)"
    and "sorted (map fst calls)" and "\<forall>t\<in>set (map fst calls). now0 \<le> t" and "now0 \<le> T"
    and "0 \<le> maxRequests (config this)"
    and "blockDurationMs (config this) \<le> 0 \<or> windowMs (config this) \<le> blockDurationMs (config this)"
  shows "int (in_window (config this) T (state_of this c))
         + int (admitted_in_window (windowMs (config this)) c T (run_checks this calls))
         \<le> maxRequests (config this)"
  using assms
proof (induction calls arbitrary: this now0)
  case Nil
  then show ?case using history_inv_bound [of "config this" now0 "state_of this c" T]
    by (simp add: admitted_in_window_def)
next
  case (Cons call calls)
  obtain t cid where call: "call = (t, cid)" by (cases call)
  let ?cfg = "config this"
  let ?this' = "snd (check this t cid)"
  let ?r = "fst (check this t cid)"
  have t0: "now0 \<le> t" using Cons.prems(3) call by simp
  show ?case
  proof (cases "T < t")
    case True
    have "\<forall>u\<in>set (map fst (run_checks this (call # calls))). T < u"
      using True Cons.prems(2) call by (auto simp del: run_checks.simps)
    then have "admitted_in_window (windowMs ?cfg) c T (run_checks this (call # calls)) = 0"
      by (rule admitted_in_window_later)
    then show ?thesis
      using history_inv_bound [OF Cons.prems(1,4)] by simp
  next
    case False
    then have tT: "t \<le> T" by simp
    have inv': "history_inv (config ?this') t (state_of ?this' c)"
    proof (cases "cid = c")
      case True
      then show ?thesis
        using check_state_inv [OF Cons.prems(1) t0 Cons.prems(5,6)]
        by (simp add: check_state_of_same)
    next
      case False
      then show ?thesis
        using history_inv_mono [OF Cons.prems(1) t0] by (simp add: check_state_of_other)
    qed
    have later: "\<forall>u\<in>set (map fst calls). t \<le> u" using Cons.prems(2) call by simp
    have sorted': "sorted (map fst calls)" using Cons.prems(2) by simp
    have IH: "int (in_window ?cfg T (state_of ?this' c))
         + int (admitted_in_window (windowMs ?cfg) c T (run_checks ?this' calls))
         \<le> maxRequests ?cfg"
      using Cons.IH [OF inv' sorted' later tT] Cons.prems(5,6) by simp
    have step: "in_window ?cfg T (state_of ?this' c)
       = in_window ?cfg T (state_of this c)
         + (if cid = c \<and> allowed ?r \<and> T - windowMs ?cfg < t \<and> t \<le> T then 1 else 0)"
    proof (cases "cid = c")
      case True
      then show ?thesis
        using check_state_count [OF Cons.prems(1) t0 tT] tT
        by (simp add: check_state_of_same check_fst)
    next
      case False
      then show ?thesis by (simp add: check_state_of_other)
    qed
    show ?thesis
      using IH step by (simp add: call admitted_in_window_Cons)
  qed
qed


lemma check_snd_clients:
  "clients (snd (check this now c)) c
     = Some (snd (check_state (config this) now (state_of this c)))"
  by (simp add: check_def state_of_def Let_def split: prod.splits)


text \<open>An admitted request: the trimmed sequence, the append and the reported reset time.\<close>

lemma check_state_admit:
  assumes "allowed (fst (check_state cfg now state))"
  shows "\<exists>pre. requests (snd (check_state cfg now state)) = pre @ [now]
           \<and> list_all (\<lambda>ts. now - windowMs cfg < ts) pre
           \<and> (pre = [] \<longrightarrow> resetMs (fst (check_state cfg now state)) = max 0 (windowMs cfg))
           \<and> (pre \<noteq> [] \<longrightarrow>
                 resetMs (fst (check_state cfg now state)) = hd pre + windowMs cfg - now)"
proof -
  define xs where "xs = filter (\<lambda>ts. ts > now - windowMs cfg)
                 (if truthy (blockedUntil state) then [] else requests state)"
  have all: "list_all (\<lambda>ts. now - windowMs cfg < ts) xs"
    by (simp add: xs_def list_all_iff)
  have hd_in: "xs \<noteq> [] \<Longrightarrow> hd xs > now - windowMs cfg"
    using all by (cases xs) simp_all
  have "requests (snd (check_state cfg now state)) = xs @ [now]
       \<and> (xs = [] \<longrightarrow> resetMs (fst (check_state cfg now state)) = max 0 (windowMs cfg))
       \<and> (xs \<noteq> [] \<longrightarrow>
             resetMs (fst (check_state cfg now state)) = hd xs + windowMs cfg - now)"
    using assms hd_in
    by (cases xs)
      (auto simp add: xs_def check_state_def check_window_def Let_def
        split: option.splits if_splits list.splits)
  with all show ?thesis by blast
qed

lemma cleanup_entry_trimmed:
  assumes "cleanup_entry cfg now state = Some state'"
  shows "list_all (\<lambda>ts. now - windowMs cfg < ts) (requests state')"
  using assms
  by (auto simp add: cleanup_entry_def Let_def list_all_iff split: option.splits if_splits)



lemma message_type_Inl: "message_type m = Inl e \<Longrightarrow> m = JNull"
  by (cases m) simp_all

text \<open>
  With a transport and a denial callback that return normally, the promise of
  \<^verbatim>\<open>handleMessage\<close> rejects in two cases only: the payload parses to \<^verbatim>\<open>null\<close>, or a handler
  throws a value whose conversion to text throws.
\<close>

lemma handleMessage_rejection_cases:
  assumes "fst (handleMessage JSON_parse this now client rawMessage) = Some e"
  shows "JSON_parse rawMessage = Some JNull
         \<or> (\<exists>message name handler v.
               JSON_parse rawMessage = Some message \<and> handlers this name = Some handler
               \<and> fst (handler client message
                         (snd (check (rateLimiter this) now (getClientId this client)))) = Some v
               \<and> thrown_text v = Inl e)"
  using assms
  by (auto simp add: handleMessage_def Let_def dest: message_type_Inl
      split: option.splits sum.splits prod.splits if_splits)



lemma after_checks_config [simp]: "config (after_checks this calls) = config this"
  by (induction calls arbitrary: this) auto




section \<open>The claims\<close>

text \<open>
  C1 fails on the code. Under the policy \<open>maxRequests = 1\<close>, \<open>windowMs = 50\<close>,
  \<open>blockDurationMs = 10\<close> a client calls \<^verbatim>\<open>check\<close> at 0 (admitted), at 1 (denied, blocked
  until 11) and at 11: the block has expired, the history is cleared with it, and the
  call is admitted. Two calls are admitted inside the window \<open>(-39, 11]\<close>, against
  \<open>maxRequests = 1\<close>, the "maximum number of requests allowed within the window". The
  same calls with no block configured admit once.
\<close>

theorem block_expiry_exceeds_quota:
  "map (\<lambda>(t, c, r). allowed r)
     (run_checks (new_RateLimiter 1 50 (Some 10)) [(0, ''c''), (1, ''c''), (11, ''c'')])
     = [True, False, True]
   \<and> admitted_in_window (windowMs (config (new_RateLimiter 1 50 (Some 10)))) ''c'' 11
       (run_checks (new_RateLimiter 1 50 (Some 10)) [(0, ''c''), (1, ''c''), (11, ''c'')]) = 2
   \<and> maxRequests (config (new_RateLimiter 1 50 (Some 10))) = 1
   \<and> map (\<lambda>(t, c, r). allowed r)
       (run_checks (new_RateLimiter 1 50 None) [(0, ''c''), (1, ''c''), (11, ''c'')])
       = [True, False, False]"
  by (simp add: admitted_in_window_def new_RateLimiter_def check_def check_state_def
      check_window_def Let_def)

text \<open>
  The bound itself holds wherever the clearing at block expiry cannot be observed: on
  a fresh limiter with positive \<open>maxRequests\<close> whose \<open>blockDurationMs\<close> is zero (absent)
  or at least \<open>windowMs\<close>, for every sequence of \<^verbatim>\<open>check\<close> calls with non-decreasing clock
  readings, every client \<open>c\<close> and every reading \<open>T\<close>, the number of calls of \<open>c\<close> admitted
  at a reading inside \<open>(T - windowMs, T]\<close> is at most \<open>maxRequests\<close>.
\<close>

lemma sliding_window_bound:
  assumes "0 < maxRequests (config this)"
    and "blockDurationMs (config this) \<le> 0 \<or> windowMs (config this) \<le> blockDurationMs (config this)"
    and "clients this = Map.empty"
    and "sorted (map fst calls)"
  shows "int (admitted_in_window (windowMs (config this)) c T (run_checks this calls))
           \<le> maxRequests (config this)"
proof -
  define now0 where "now0 = Min (insert T (set (map fst calls)))"
  have fin: "finite (insert T (set (map fst calls)))" by simp
  have 1: "now0 \<le> T" unfolding now0_def by (rule Min_le [OF fin]) simp
  have 2: "\<forall>t\<in>set (map fst calls). now0 \<le> t"
    unfolding now0_def using Min_le [OF fin] by blast
  have s: "state_of this c = \<lparr>requests = [], blockedUntil = None\<rparr>"
    using assms(3) by (simp add: state_of_def)
  have inv: "history_inv (config this) now0 (state_of this c)"
    using assms(1) by (simp add: s history_inv_def in_window_def)
  have "0 \<le> maxRequests (config this)" using assms(1) by simp
  from run_checks_window [OF inv assms(4) 2 1 this assms(2)]
  show ?thesis by simp
qed

text \<open>
  C2, as stated, fails for an empty sequence: the first request of a fresh client under
  the policy \<open>maxRequests = 3\<close>, \<open>windowMs = 1000\<close> is admitted with \<open>resetMs = 1000\<close>, not 0.
\<close>

theorem check_admit_resetMs_counterexample:
  "clients (new_RateLimiter 3 1000 None) ''c'' = None
   \<and> allowed (fst (check (new_RateLimiter 3 1000 None) 0 ''c''))
   \<and> resetMs (fst (check (new_RateLimiter 3 1000 None) 0 ''c'')) \<noteq> 0"
  by (simp add: new_RateLimiter_def check_def check_state_def check_window_def Let_def)

text \<open>
  C2, amended: when \<^verbatim>\<open>check\<close> admits a request, the client's stored sequence is the
  sequence \<open>pre\<close> before the append (after the clearing of an expired block and the
  trim) followed by \<open>now\<close>; when \<open>pre\<close> is empty the result has
  \<open>resetMs = max 0 windowMs\<close>, that is \<open>windowMs\<close> for a positive window; when \<open>pre\<close> is not
  empty, \<open>resetMs = (oldest timestamp of pre + windowMs) - now\<close>.
\<close>

theorem check_admit_resetMs:
  assumes "allowed (fst (check this now clientId))"
  shows "\<exists>state pre. clients (snd (check this now clientId)) clientId = Some state
           \<and> requests state = pre @ [now]
           \<and> (pre = [] \<longrightarrow>
                 resetMs (fst (check this now clientId)) = max 0 (windowMs (config this)))
           \<and> (pre \<noteq> [] \<longrightarrow>
                 resetMs (fst (check this now clientId)) = hd pre + windowMs (config this) - now)"
proof -
  from assms have "allowed (fst (check_state (config this) now (state_of this clientId)))"
    by (simp add: check_fst)
  from check_state_admit [OF this] show ?thesis
    by (auto simp: check_fst check_snd_clients)
qed

theorem check_admit_resetMs_witness:
  "allowed (fst (check (new_RateLimiter 3 1000 None) 5 ''c''))
   \<and> resetMs (fst (check (new_RateLimiter 3 1000 None) 5 ''c'')) = max 0 1000
   \<and> allowed (fst (check (snd (check (new_RateLimiter 3 1000 None) 5 ''c'')) 20 ''c''))
   \<and> clients (snd (check (snd (check (new_RateLimiter 3 1000 None) 5 ''c'')) 20 ''c'')) ''c''
       = Some \<lparr>requests = [5] @ [20], blockedUntil = None\<rparr>
   \<and> resetMs (fst (check (snd (check (new_RateLimiter 3 1000 None) 5 ''c'')) 20 ''c''))
       = hd [5] + 1000 - 20"
  using check_admit_resetMs [of "snd (check (new_RateLimiter 3 1000 None) 5 ''c'')" 20 "''c''"]
    check_admit_resetMs [of "new_RateLimiter 3 1000 None" 5 "''c''"]
  by (simp add: new_RateLimiter_def check_def check_state_def check_window_def Let_def)

text \<open>
  C3, as stated, fails at its last step: the block set at 10 lasts until 110, so the
  call at 105 is still denied.
\<close>

theorem block_scenario_counterexample:
  "\<not> allowed (fst (check (snd (check (snd (check (new_RateLimiter 1 50 (Some 100)) 0 ''c'')) 10 ''c''))
                       105 ''c''))"
  by (simp add: new_RateLimiter_def check_def check_state_def check_window_def Let_def)

text \<open>
  C3, amended: under the policy \<open>maxRequests = 1\<close>, \<open>windowMs = 50\<close>,
  \<open>blockDurationMs = 100\<close>, for a fresh client, \<^verbatim>\<open>check\<close> at 0 is admitted; at 10 it is
  denied with \<open>blocked = true\<close> and \<open>resetMs = 100\<close>; at 105 it is still denied, with
  \<open>blocked = true\<close> and \<open>resetMs = 5\<close>; at 110 the block has expired and the call is
  admitted against a fresh window.
\<close>

theorem block_scenario:
  "run_checks (new_RateLimiter 1 50 (Some 100)) [(0, ''c''), (10, ''c''), (105, ''c''), (110, ''c'')]
   = [(0, ''c'', \<lparr>allowed = True, remaining = 0, resetMs = 50, blocked = None\<rparr>),
      (10, ''c'', \<lparr>allowed = False, remaining = 0, resetMs = 100, blocked = Some True\<rparr>),
      (105, ''c'', \<lparr>allowed = False, remaining = 0, resetMs = 5, blocked = Some True\<rparr>),
      (110, ''c'', \<lparr>allowed = True, remaining = 0, resetMs = 50, blocked = None\<rparr>)]"
  by (simp add: new_RateLimiter_def check_def check_state_def check_window_def Let_def)

text \<open>
  C4 fails on the code: when the client is within its quota and the payload parses to
  \<^verbatim>\<open>null\<close> (the text \<^verbatim>\<open>null\<close> is valid JSON), the read \<^verbatim>\<open>message.type\<close> throws a TypeError
  outside every \<^verbatim>\<open>try\<close>, and the promise of \<^verbatim>\<open>handleMessage\<close> rejects with it.
\<close>

theorem handleMessage_null_rejects:
  assumes "allowed (fst (check (rateLimiter this) now (getClientId this client)))"
    and "JSON_parse rawMessage = Some JNull"
  shows "fst (handleMessage JSON_parse this now client rawMessage) = Some TypeError"
  using assms by (simp add: handleMessage_def Let_def)

theorem handleMessage_null_rejects_witness:
  "allowed (fst (check (rateLimiter ping_server) 0 (getClientId ping_server mock_client_c1)))
   \<and> test_payloads ''null'' = Some JNull
   \<and> fst (handleMessage test_payloads ping_server 0 mock_client_c1 ''null'') = Some TypeError"
  using handleMessage_null_rejects [of ping_server 0 mock_client_c1 test_payloads "''null''"]
  by (simp add: test_payloads_def on_def new_RateLimitedWebSocketServer_def
      new_RateLimiter_def check_def check_state_def check_window_def Let_def)

text \<open>
  C5, as stated, fails for \<^verbatim>\<open>consume\<close>, which pushes the clock reading and trims nothing:
  under \<open>windowMs = 50\<close>, after \<^verbatim>\<open>check\<close> at 0 and \<^verbatim>\<open>consume\<close> at 1000 the sequence is
  \<open>[0, 1000]\<close>, and 0 is not later than \<open>1000 - 50\<close>.
\<close>

theorem trim_after_check_and_cleanup_counterexample:
  "clients (consume (snd (check (new_RateLimiter 5 50 None) 0 ''c'')) 1000 ''c'') ''c''
     = Some \<lparr>requests = [0, 1000], blockedUntil = None\<rparr>
   \<and> (0::int) \<le> 1000 - windowMs (config (new_RateLimiter 5 50 None))"
  by (simp add: new_RateLimiter_def consume_def check_def check_state_def check_window_def
      Let_def)

text \<open>
  C5, amended: under a positive \<open>windowMs\<close>, immediately after a \<^verbatim>\<open>check\<close> that admits a
  request the client's sequence holds no timestamp older than or equal to
  \<open>now - windowMs\<close>, and immediately after \<^verbatim>\<open>cleanup\<close> the same holds of the sequence of
  every client still tracked.
\<close>

theorem trim_after_check_and_cleanup:
  assumes "0 < windowMs (config this)"
  shows "(allowed (fst (check this now c)) \<longrightarrow>
           (\<exists>state. clients (snd (check this now c)) c = Some state
              \<and> list_all (\<lambda>ts. now - windowMs (config this) < ts) (requests state)))
       \<and> (\<forall>c state. clients (cleanup this now) c = Some state \<longrightarrow>
              list_all (\<lambda>ts. now - windowMs (config this) < ts) (requests state))"
proof (intro conjI impI allI)
  assume "allowed (fst (check this now c))"
  then have "allowed (fst (check_state (config this) now (state_of this c)))"
    by (simp add: check_fst)
  from check_state_admit [OF this] assms
  show "\<exists>state. clients (snd (check this now c)) c = Some state
              \<and> list_all (\<lambda>ts. now - windowMs (config this) < ts) (requests state)"
    by (auto simp: check_snd_clients)
next
  fix c state
  assume "clients (cleanup this now) c = Some state"
  then obtain s0 where "cleanup_entry (config this) now s0 = Some state"
    by (auto simp: cleanup_def split: option.splits)
  then show "list_all (\<lambda>ts. now - windowMs (config this) < ts) (requests state)"
    by (rule cleanup_entry_trimmed)
qed

theorem trim_after_check_and_cleanup_witness:
  "0 < windowMs (config stale_limiter)
   \<and> allowed (fst (check stale_limiter 100 ''a''))
   \<and> clients (snd (check stale_limiter 100 ''a'')) ''a''
       = Some \<lparr>requests = [80, 100], blockedUntil = None\<rparr>
   \<and> list_all (\<lambda>ts. 100 - windowMs (config stale_limiter) < ts) [80, 100]
   \<and> clients (cleanup stale_limiter 100) ''a'' = Some \<lparr>requests = [80], blockedUntil = None\<rparr>
   \<and> list_all (\<lambda>ts. 100 - windowMs (config stale_limiter) < ts) [80]"
  using trim_after_check_and_cleanup [of stale_limiter 100 "''a''"]
  by (simp add: cleanup_def cleanup_entry_def check_def check_state_def check_window_def
      Let_def)




text \<open>
  C7: when the client's \<open>blockedUntil\<close> is set and lies strictly after the clock reading
  (a reading of \<^verbatim>\<open>Date.now()\<close>, so not negative), \<^verbatim>\<open>check\<close> returns \<open>allowed = false\<close>,
  \<open>remaining = 0\<close>, \<open>resetMs = blockedUntil - now\<close>, \<open>blocked = true\<close>, and the limiter,
  with the client's timestamps and \<open>blockedUntil\<close>, is as it was.
\<close>

theorem check_blocked_frame:
  assumes "clients this clientId = Some state" and "blockedUntil state = Some until"
    and "now < until" and "0 \<le> now"
  shows "check this now clientId =
     (\<lparr>allowed = False, remaining = 0, resetMs = until - now, blocked = Some True\<rparr>, this)"
  using assms
  by (simp add: check_def check_state_def Let_def map_upd_triv)

theorem check_blocked_frame_witness:
  "clients blocked_limiter ''c'' = Some \<lparr>requests = [3, 4], blockedUntil = Some 5004\<rparr>
   \<and> blockedUntil \<lparr>requests = [3, 4], blockedUntil = Some 5004\<rparr> = Some 5004
   \<and> (10::int) < 5004 \<and> (0::int) \<le> 10
   \<and> check blocked_limiter 10 ''c''
       = (\<lparr>allowed = False, remaining = 0, resetMs = 5004 - 10, blocked = Some True\<rparr>,
          blocked_limiter)"
  using check_blocked_frame [of blocked_limiter "''c''"
      "\<lparr>requests = [3, 4], blockedUntil = Some 5004\<rparr>" 5004 10]
  by simp

text \<open>
  C8: at a clock reading \<open>now\<close> (not negative, and not earlier than any stored
  timestamp), after one \<^verbatim>\<open>cleanup\<close> the entry of a tracked client is absent if and only
  if the client had no timestamp inside \<open>(now - windowMs, now]\<close> and no \<open>blockedUntil\<close>
  strictly after \<open>now\<close>; every other tracked entry is still present.
\<close>

theorem cleanup_removes_iff:
  assumes "clients this c = Some state" and "0 \<le> now"
    and "list_all (\<lambda>ts. ts \<le> now) (requests state)"
  shows "clients (cleanup this now) c = None \<longleftrightarrow>
           \<not> list_ex (\<lambda>ts. now - windowMs (config this) < ts \<and> ts \<le> now) (requests state)
           \<and> \<not> (\<exists>until. blockedUntil state = Some until \<and> now < until)"
  using assms
  by (auto simp add: cleanup_def cleanup_entry_def Let_def list_all_iff list_ex_iff
      filter_empty_conv split: option.splits if_splits)

theorem cleanup_removes_iff_witness:
  "clients stale_limiter ''idle'' = Some \<lparr>requests = [10, 50], blockedUntil = Some 90\<rparr>
   \<and> (0::int) \<le> 100
   \<and> list_all (\<lambda>ts. ts \<le> 100) (requests \<lparr>requests = [10, 50], blockedUntil = Some 90\<rparr>)
   \<and> clients (cleanup stale_limiter 100) ''idle'' = None
   \<and> clients stale_limiter ''a'' = Some \<lparr>requests = [10, 80], blockedUntil = None\<rparr>
   \<and> list_all (\<lambda>ts. ts \<le> 100) (requests \<lparr>requests = [10, 80], blockedUntil = None\<rparr>)
   \<and> clients (cleanup stale_limiter 100) ''a'' \<noteq> None"
  using cleanup_removes_iff [of stale_limiter "''idle''"
      "\<lparr>requests = [10, 50], blockedUntil = Some 90\<rparr>" 100]
    cleanup_removes_iff [of stale_limiter "''a''"
      "\<lparr>requests = [10, 80], blockedUntil = None\<rparr>" 100]
  by (simp add: cleanup_def cleanup_entry_def Let_def)

text \<open>
  C9: under a policy with \<open>maxRequests = 0\<close>, \<^verbatim>\<open>check\<close> returns \<open>allowed = false\<close> for
  every client, every state of the limiter and every clock reading. \<^verbatim>\<open>check\<close> has no
  failing branch: it returns a result on every input.
\<close>

theorem check_maxRequests_zero:
  assumes "maxRequests (config this) = 0"
  shows "\<not> allowed (fst (check this now clientId))"
  using assms
  by (simp add: check_def check_state_def check_window_def Let_def
      split: prod.splits option.splits if_splits)

theorem check_maxRequests_zero_witness:
  "maxRequests (config (new_RateLimiter 0 1000 None)) = 0
   \<and> \<not> allowed (fst (check (new_RateLimiter 0 1000 None) 5 ''a''))"
  using check_maxRequests_zero [of "new_RateLimiter 0 1000 None" 5 "''a''"]
  by (simp add: new_RateLimiter_def)



end
